theory Spec2Isabelle
  imports Main "HOL-Library.Word"
begin

section \<open>Strings, code points and frequency objects\<close>

text \<open>
  A TypeScript string is a sequence of 16-bit UTF-16 code units. The loop
  \<^verbatim>\<open>for (const char of inputString)\<close> does not walk code units: the string iterator
  yields one string per code point, joining a leading surrogate (D800..DBFF) with the
  trailing surrogate (DC00..DFFF) that follows it, and yielding every other code unit,
  an unpaired surrogate included, alone.
\<close>

type_synonym codeUnit = "16 word"
type_synonym jsString = "codeUnit list"

definition isLeadingSurrogate :: "codeUnit \<Rightarrow> bool" where
  "isLeadingSurrogate u = (0xD800 \<le> u \<and> u \<le> 0xDBFF)"

definition isTrailingSurrogate :: "codeUnit \<Rightarrow> bool" where
  "isTrailingSurrogate u = (0xDC00 \<le> u \<and> u \<le> 0xDFFF)"

fun stringIterator :: "jsString \<Rightarrow> jsString list" where
  "stringIterator [] = []"
| "stringIterator [u] = [[u]]"
| "stringIterator (u # v # rest) =
     (if isLeadingSurrogate u \<and> isTrailingSurrogate v
      then [u, v] # stringIterator rest
      else [u] # stringIterator (v # rest))"

text \<open>
  The frequency map is the plain object \<^verbatim>\<open>{ [key: string]: number }\<close>: its own
  properties, kept in creation order. A property read that finds nothing is
  \<^verbatim>\<open>undefined\<close>, here \<open>None\<close>. An assignment to an existing key replaces the value
  where the key stands; an assignment to a new key appends the property. The values
  are counts of code points of one string, far below \<open>2 ^ 53\<close>, where the numbers of
  the language are exact, so they are natural numbers here.

  A read also looks at the names inherited from \<^verbatim>\<open>Object.prototype\<close>. Each of those
  is longer than the string of one code point, so the loop of \<^verbatim>\<open>createFrequencyMap\<close>
  never meets one; and each is a function or an object, which compares false against a
  number, as a missing key does in \<^verbatim>\<open>canFormString\<close>. So the model reads own
  properties only.
\<close>

type_synonym frequencyObject = "(jsString \<times> nat) list"

fun getProp :: "frequencyObject \<Rightarrow> jsString \<Rightarrow> nat option" where
  "getProp [] key = None"
| "getProp ((k, v) # props) key = (if k = key then Some v else getProp props key)"

fun setProp :: "frequencyObject \<Rightarrow> jsString \<Rightarrow> nat \<Rightarrow> frequencyObject" where
  "setProp [] key val = [(key, val)]"
| "setProp ((k, v) # props) key val =
     (if k = key then (k, val) # props else (k, v) # setProp props key val)"

text \<open>The operator \<^verbatim>\<open>??\<close>: the right operand when the left one is undefined.\<close>

definition nullish :: "nat option \<Rightarrow> nat \<Rightarrow> nat" where
  "nullish x d = (case x of None \<Rightarrow> d | Some n \<Rightarrow> n)"

text \<open>
  \<^verbatim>\<open>Object.entries\<close> lists the own properties in the order of the language: first the
  keys that are array indices (canonical decimal numerals below \<open>2 ^ 32 - 1\<close>) by
  ascending value, then all other keys in creation order.
\<close>

definition isDigit :: "codeUnit \<Rightarrow> bool" where
  "isDigit u = (0x30 \<le> u \<and> u \<le> 0x39)"

definition digitsValue :: "jsString \<Rightarrow> int" where
  "digitsValue s = foldl (\<lambda>n u. 10 * n + (uint u - 48)) 0 s"

definition arrayIndex :: "jsString \<Rightarrow> int option" where
  "arrayIndex s =
     (case s of
        [] \<Rightarrow> None
      | u # rest \<Rightarrow>
          if list_all isDigit s \<and> (if u = 0x30 then rest = [] else True)
             \<and> digitsValue s < 2 ^ 32 - 1
          then Some (digitsValue s) else None)"

definition Object_entries :: "frequencyObject \<Rightarrow> (jsString \<times> nat) list" where
  "Object_entries obj =
     sort_key (\<lambda>(k, v). case arrayIndex k of None \<Rightarrow> 0 | Some i \<Rightarrow> i)
       (filter (\<lambda>(k, v). arrayIndex k \<noteq> None) obj)
     @ filter (\<lambda>(k, v). arrayIndex k = None) obj"

section \<open>The three functions\<close>

text \<open>
  \<^verbatim>\<open>createFrequencyMap\<close>: the body of the loop, then the loop over the code points
  of the string, started on the empty object.
\<close>

definition createFrequencyMap_body :: "frequencyObject \<Rightarrow> jsString \<Rightarrow> frequencyObject" where
  "createFrequencyMap_body frequencyMap char =
     setProp frequencyMap char (nullish (getProp frequencyMap char) 0 + 1)"

definition createFrequencyMap :: "jsString \<Rightarrow> frequencyObject" where
  "createFrequencyMap inputString =
     foldl createFrequencyMap_body [] (stringIterator inputString)"

text \<open>
  \<^verbatim>\<open>canFormString\<close>: \<^verbatim>\<open>every\<close> over the entries of the second object; an entry
  passes when the first object has the key (the read is not \<^verbatim>\<open>undefined\<close>) with a
  count that is at least the entry's.
\<close>

definition canFormString :: "frequencyObject \<Rightarrow> frequencyObject \<Rightarrow> bool" where
  "canFormString map_1 map_2 =
     list_all (\<lambda>(char, frequency).
                 (case getProp map_1 char of
                    None \<Rightarrow> False
                  | Some n \<Rightarrow> frequency \<le> n))
       (Object_entries map_2)"

text \<open>
  \<^verbatim>\<open>findWords\<close>: the callback of \<^verbatim>\<open>reduce\<close> pushes the word onto the accumulator
  when it is formable; the reduction starts on a fresh empty array and runs over the
  dictionary from left to right.
\<close>

definition findWords_callback :: "frequencyObject \<Rightarrow> jsString list \<Rightarrow> jsString \<Rightarrow> jsString list" where
  "findWords_callback inputStringFrequencyMap acc word =
     (let wordFrequencyMap = createFrequencyMap word
      in if canFormString inputStringFrequencyMap wordFrequencyMap
         then acc @ [word] else acc)"

definition findWords :: "jsString \<Rightarrow> jsString list \<Rightarrow> jsString list" where
  "findWords inputString dictionary =
     (let inputStringFrequencyMap = createFrequencyMap inputString
      in foldl (findWords_callback inputStringFrequencyMap) [] dictionary)"

text \<open>ASCII literals as strings of the language: one code unit per character.\<close>

definition ascii :: "string \<Rightarrow> jsString" where
  "ascii s = map of_char s"


text \<open>
  Dominance between two frequency objects, after the words of the specification: the
  first holds at least as many of every character that the second has. A character
  that the first lacks counts zero times there.
\<close>

definition dominates :: "frequencyObject \<Rightarrow> frequencyObject \<Rightarrow> bool" where
  "dominates bigger smaller =
     list_all (\<lambda>(char, frequency). frequency \<le> nullish (getProp bigger char) 0) smaller"

section \<open>The string iterator\<close>

text \<open>
  The iterator cuts the string into pieces of one or two code units and loses nothing;
  a string without leading surrogates is walked code unit by code unit.
\<close>

lemma concat_stringIterator: "concat (stringIterator s) = s"
  by (induction s rule: stringIterator.induct) auto

lemma stringIterator_pieces:
  "c \<in> set (stringIterator s) \<Longrightarrow> length c = 1 \<or> length c = 2"
  by (induction s rule: stringIterator.induct) (auto split: if_splits)

lemma stringIterator_no_surrogates:
  "list_all (\<lambda>u. \<not> isLeadingSurrogate u) s \<Longrightarrow> stringIterator s = map (\<lambda>u. [u]) s"
  by (induction s rule: stringIterator.induct) auto

lemma stringIterator_Nil_iff: "stringIterator s = [] \<longleftrightarrow> s = []"
  by (induction s rule: stringIterator.induct) auto

section \<open>Properties of the object operations\<close>

lemma getProp_setProp:
  "getProp (setProp m k v) k' = (if k' = k then Some v else getProp m k')"
  by (induction m k v rule: setProp.induct) auto

lemma keys_setProp:
  "set (map fst (setProp m k v)) = insert k (set (map fst m))"
  by (induction m k v rule: setProp.induct) auto

lemma distinct_setProp:
  "distinct (map fst m) \<Longrightarrow> distinct (map fst (setProp m k v))"
  by (induction m k v rule: setProp.induct) (auto simp: keys_setProp simp del: set_map)

lemma getProp_None_iff: "getProp m k = None \<longleftrightarrow> k \<notin> fst ` set m"
  by (induction m k rule: getProp.induct) auto

lemma getProp_Some_mem: "getProp m k = Some v \<Longrightarrow> (k, v) \<in> set m"
  by (induction m k rule: getProp.induct) (auto split: if_splits)

lemma mem_getProp_Some:
  "distinct (map fst m) \<Longrightarrow> (k, v) \<in> set m \<Longrightarrow> getProp m k = Some v"
  by (induction m k rule: getProp.induct) (auto simp: rev_image_eqI)

lemma set_Object_entries: "set (Object_entries obj) = set obj"
  by (auto simp: Object_entries_def)


section \<open>The counting loop\<close>

lemma getProp_body:
  "getProp (createFrequencyMap_body m a) c =
     (if c = a then Some (nullish (getProp m a) 0 + 1) else getProp m c)"
  by (simp add: createFrequencyMap_body_def getProp_setProp)

text \<open>The loop from any starting object: the invariant that the empty start specialises.\<close>

lemma getProp_loop:
  "getProp (foldl createFrequencyMap_body m cs) c =
     (if getProp m c = None \<and> c \<notin> set cs then None
      else Some (nullish (getProp m c) 0 + count_list cs c))"
proof (induction cs arbitrary: m)
  case Nil
  show ?case by (cases "getProp m c") (simp_all add: nullish_def)
next
  case (Cons a cs)
  show ?case
    by (cases "getProp m c") (auto simp: Cons.IH getProp_body nullish_def)
qed

lemma distinct_loop:
  "distinct (map fst m) \<Longrightarrow> distinct (map fst (foldl createFrequencyMap_body m cs))"
  by (induction cs arbitrary: m) (simp_all add: createFrequencyMap_body_def distinct_setProp)

lemma sum_body:
  "sum_list (map snd (createFrequencyMap_body m k)) = Suc (sum_list (map snd m))"
  unfolding createFrequencyMap_body_def
  by (induction m k rule: getProp.induct) (simp_all add: nullish_def)

lemma sum_loop:
  "sum_list (map snd (foldl createFrequencyMap_body m cs)) = sum_list (map snd m) + length cs"
  by (induction cs arbitrary: m) (simp_all add: sum_body)

lemma getProp_createFrequencyMap:
  "getProp (createFrequencyMap s) c =
     (if c \<in> set (stringIterator s) then Some (count_list (stringIterator s) c) else None)"
  by (simp add: createFrequencyMap_def getProp_loop nullish_def)

lemma distinct_createFrequencyMap: "distinct (map fst (createFrequencyMap s))"
  by (simp add: createFrequencyMap_def distinct_loop)

lemma entry_createFrequencyMap:
  "(c, n) \<in> set (createFrequencyMap s) \<longleftrightarrow>
     c \<in> set (stringIterator s) \<and> n = count_list (stringIterator s) c"
proof
  assume "(c, n) \<in> set (createFrequencyMap s)"
  then have "getProp (createFrequencyMap s) c = Some n"
    by (rule mem_getProp_Some [OF distinct_createFrequencyMap])
  then show "c \<in> set (stringIterator s) \<and> n = count_list (stringIterator s) c"
    by (simp add: getProp_createFrequencyMap split: if_splits)
next
  assume "c \<in> set (stringIterator s) \<and> n = count_list (stringIterator s) c"
  then have "getProp (createFrequencyMap s) c = Some n"
    by (simp add: getProp_createFrequencyMap)
  then show "(c, n) \<in> set (createFrequencyMap s)"
    by (rule getProp_Some_mem)
qed

lemma count_list_pos: "c \<in> set cs \<Longrightarrow> Suc 0 \<le> count_list cs c"
  by (induction cs) auto

section \<open>The subset check and the word finder\<close>

lemma canFormString_iff:
  "canFormString a b \<longleftrightarrow> (\<forall>(k, v) \<in> set b. \<exists>n. getProp a k = Some n \<and> v \<le> n)"
  by (auto simp: canFormString_def list_all_iff set_Object_entries split: option.splits)

lemma canFormString_strings:
  "canFormString (createFrequencyMap s) (createFrequencyMap w) \<longleftrightarrow>
     (\<forall>c. count_list (stringIterator w) c \<le> count_list (stringIterator s) c)"
  (is "?L \<longleftrightarrow> ?R")
proof
  assume L: ?L
  show ?R
  proof
    fix c
    show "count_list (stringIterator w) c \<le> count_list (stringIterator s) c"
    proof (cases "c \<in> set (stringIterator w)")
      case True
      then have "(c, count_list (stringIterator w) c) \<in> set (createFrequencyMap w)"
        by (simp add: entry_createFrequencyMap)
      with L obtain n where "getProp (createFrequencyMap s) c = Some n"
        and "count_list (stringIterator w) c \<le> n"
        by (auto simp: canFormString_iff)
      then show ?thesis
        by (simp add: getProp_createFrequencyMap split: if_splits)
    next
      case False
      then show ?thesis by simp
    qed
  qed
next
  assume R: ?R
  show ?L
    unfolding canFormString_iff
  proof (clarify)
    fix k v
    assume "(k, v) \<in> set (createFrequencyMap w)"
    then have kw: "k \<in> set (stringIterator w)" and v: "v = count_list (stringIterator w) k"
      by (simp_all add: entry_createFrequencyMap)
    from kw have "1 \<le> count_list (stringIterator w) k" by (simp add: count_list_pos)
    with R have "1 \<le> count_list (stringIterator s) k"
      by (meson order_trans)
    then have "k \<in> set (stringIterator s)"
      by (cases "k \<in> set (stringIterator s)") simp_all
    with R v show "\<exists>n. getProp (createFrequencyMap s) k = Some n \<and> v \<le> n"
      by (simp add: getProp_createFrequencyMap)
  qed
qed

lemma dominates_strings:
  "dominates (createFrequencyMap s') (createFrequencyMap s) \<longleftrightarrow>
     (\<forall>c. count_list (stringIterator s) c \<le> count_list (stringIterator s') c)"
  (is "?L \<longleftrightarrow> ?R")
proof
  assume L: ?L
  show ?R
  proof
    fix c
    show "count_list (stringIterator s) c \<le> count_list (stringIterator s') c"
    proof (cases "c \<in> set (stringIterator s)")
      case True
      then have "(c, count_list (stringIterator s) c) \<in> set (createFrequencyMap s)"
        by (simp add: entry_createFrequencyMap)
      with L have "count_list (stringIterator s) c
                     \<le> nullish (getProp (createFrequencyMap s') c) 0"
        by (auto simp: dominates_def list_all_iff)
      then show ?thesis
        by (simp add: getProp_createFrequencyMap nullish_def split: if_splits)
    next
      case False
      then show ?thesis by simp
    qed
  qed
next
  assume R: ?R
  show ?L
    unfolding dominates_def list_all_iff
  proof (clarify)
    fix k v
    assume "(k, v) \<in> set (createFrequencyMap s)"
    then have v: "v = count_list (stringIterator s) k"
      by (simp add: entry_createFrequencyMap)
    from R have "count_list (stringIterator s) k \<le> count_list (stringIterator s') k"
      by blast
    with v show "v \<le> nullish (getProp (createFrequencyMap s') k) 0"
      by (cases "k \<in> set (stringIterator s')")
         (simp_all add: getProp_createFrequencyMap nullish_def)
  qed
qed

lemma foldl_callback:
  "foldl (findWords_callback fm) acc D
     = acc @ filter (\<lambda>w. canFormString fm (createFrequencyMap w)) D"
  by (induction D arbitrary: acc) (simp_all add: findWords_callback_def)


section \<open>The claims\<close>

text \<open>
  C1. For every input string and every dictionary, \<open>findWords\<close> returns the words of
  the dictionary that are formable from the input string, each kept occurrence at its
  place and in the order of the dictionary: the reduction is a stable filter, so a word
  that stands twice in the dictionary is tested twice and kept twice.
\<close>

theorem findWords_is_filter:
  "findWords s D
     = filter (\<lambda>w. canFormString (createFrequencyMap s) (createFrequencyMap w)) D"
  by (simp add: findWords_def foldl_callback)

text \<open>
  C2. For frequency objects, whose keys are pairwise different, \<open>canFormString\<close> is
  true exactly when every key of the target is a key of the source with a count that is
  at least the target's. It is true for the empty target whatever the source, and false
  for the empty source and a target that is not empty.
\<close>

theorem canFormString_characterisation:
  assumes "distinct (map fst target)"
  shows "(canFormString source target \<longleftrightarrow>
            (\<forall>key frequency. getProp target key = Some frequency \<longrightarrow>
               (\<exists>n. getProp source key = Some n \<and> frequency \<le> n)))
         \<and> canFormString source []
         \<and> (target \<noteq> [] \<longrightarrow> \<not> canFormString [] target)"
proof (intro conjI)
  show "canFormString source target \<longleftrightarrow>
          (\<forall>key frequency. getProp target key = Some frequency \<longrightarrow>
             (\<exists>n. getProp source key = Some n \<and> frequency \<le> n))"
    unfolding canFormString_iff
    using mem_getProp_Some [OF assms] getProp_Some_mem [of target] by blast
  show "canFormString source []"
    by (simp add: canFormString_iff)
  show "target \<noteq> [] \<longrightarrow> \<not> canFormString [] target"
    by (cases target) (auto simp: canFormString_iff)
qed

theorem canFormString_characterisation_witness:
  "distinct (map fst (createFrequencyMap (ascii ''at'')))
   \<and> canFormString (createFrequencyMap (ascii ''ate'')) (createFrequencyMap (ascii ''at''))
   \<and> canFormString (createFrequencyMap (ascii ''ate'')) []
   \<and> \<not> canFormString [] (createFrequencyMap (ascii ''at''))"
proof -
  have d: "distinct (map fst (createFrequencyMap (ascii ''at'')))"
    by code_simp
  have c: "canFormString (createFrequencyMap (ascii ''ate'')) (createFrequencyMap (ascii ''at''))"
    by code_simp
  have n: "createFrequencyMap (ascii ''at'') \<noteq> []"
    by code_simp
  show ?thesis
    using canFormString_characterisation [OF d, of "createFrequencyMap (ascii ''ate'')"] c d n
    by blast
qed

text \<open>
  C3. The object that \<open>createFrequencyMap\<close> builds has a key for a character exactly
  when the character is one of the code points of the string, and the value there is
  the number of its occurrences. No key stands twice, every value is at least one, and
  the empty string gives the empty object.
\<close>

theorem createFrequencyMap_counts:
  "getProp (createFrequencyMap s) c =
     (if c \<in> set (stringIterator s) then Some (count_list (stringIterator s) c) else None)
   \<and> (c \<in> fst ` set (createFrequencyMap s)) = (c \<in> set (stringIterator s))
   \<and> distinct (map fst (createFrequencyMap s))
   \<and> list_all (\<lambda>(char, frequency). 1 \<le> frequency) (createFrequencyMap s)
   \<and> createFrequencyMap [] = []"
proof (intro conjI)
  show "getProp (createFrequencyMap s) c =
     (if c \<in> set (stringIterator s) then Some (count_list (stringIterator s) c) else None)"
    by (rule getProp_createFrequencyMap)
  show "(c \<in> fst ` set (createFrequencyMap s)) = (c \<in> set (stringIterator s))"
    using getProp_None_iff [of "createFrequencyMap s" c]
    by (simp add: getProp_createFrequencyMap split: if_splits)
  show "distinct (map fst (createFrequencyMap s))"
    by (rule distinct_createFrequencyMap)
  show "list_all (\<lambda>(char, frequency). 1 \<le> frequency) (createFrequencyMap s)"
    by (auto simp: list_all_iff entry_createFrequencyMap count_list_pos)
  show "createFrequencyMap [] = []"
    by (simp add: createFrequencyMap_def)
qed

text \<open>
  C4, as the code has it. With the empty input string, \<open>findWords\<close> returns the
  occurrences of the empty string in the dictionary, all of them and nothing else. So
  the result is empty exactly when the empty string is not in the dictionary; a
  dictionary that holds other words beside the empty string still yields its empty
  strings.
\<close>

theorem findWords_empty_input:
  "findWords [] D = filter (\<lambda>w. w = []) D
   \<and> (findWords [] D = []) = ([] \<notin> set D)"
proof -
  have formable: "canFormString (createFrequencyMap []) (createFrequencyMap w) \<longleftrightarrow> w = []" for w
  proof (cases w)
    case Nil
    then show ?thesis by (simp add: createFrequencyMap_def canFormString_iff)
  next
    case (Cons u us)
    then obtain c cs where "stringIterator w = c # cs"
      by (cases "stringIterator w") (simp_all add: stringIterator_Nil_iff)
    then have "\<not> count_list (stringIterator w) c \<le> count_list (stringIterator []) c"
      by simp
    with Cons show ?thesis
      unfolding canFormString_strings by blast
  qed
  have eq: "findWords [] D = filter (\<lambda>w. w = []) D"
    by (simp add: findWords_def foldl_callback formable)
  show ?thesis
    unfolding eq by (auto simp: filter_empty_conv)
qed

text \<open>
  C4, as it is written, fails: the dictionary of the empty string and \<^verbatim>\<open>"a"\<close> does not
  contain only the empty string, and the result for the empty input is not empty.
\<close>

theorem findWords_empty_input_counterexample:
  "[[], ascii ''a''] \<noteq> []
   \<and> set [[], ascii ''a''] \<noteq> {[]}
   \<and> findWords [] [[], ascii ''a''] = [[]]
   \<and> findWords [] [[], ascii ''a''] \<noteq> []"
proof -
  have r: "findWords [] [[], ascii ''a''] = [[]]"
    by code_simp
  have a: "ascii ''a'' \<noteq> []"
    by code_simp
  show ?thesis
    using a by (auto simp: r)
qed

text \<open>
  C5. Monotonicity: a word formable from a string \<open>S\<close> is formable from every
  string \<open>S'\<close> whose frequency object dominates that of \<open>S\<close>.
\<close>

theorem canFormString_monotone:
  assumes "canFormString (createFrequencyMap S) (createFrequencyMap W)"
    and "dominates (createFrequencyMap S') (createFrequencyMap S)"
  shows "canFormString (createFrequencyMap S') (createFrequencyMap W)"
  using assms unfolding canFormString_strings dominates_strings
  by (meson order_trans)

theorem canFormString_monotone_witness:
  "canFormString (createFrequencyMap (ascii ''ab'')) (createFrequencyMap (ascii ''a''))
   \<and> dominates (createFrequencyMap (ascii ''abbc'')) (createFrequencyMap (ascii ''ab''))
   \<and> canFormString (createFrequencyMap (ascii ''abbc'')) (createFrequencyMap (ascii ''a''))"
proof -
  have f: "canFormString (createFrequencyMap (ascii ''ab'')) (createFrequencyMap (ascii ''a''))"
    by code_simp
  have d: "dominates (createFrequencyMap (ascii ''abbc'')) (createFrequencyMap (ascii ''ab''))"
    by code_simp
  show ?thesis
    using canFormString_monotone [OF f d] f d by simp
qed

text \<open>
  C6. A key is compared by exact equality of code points, nothing is folded: the count
  under a code point is the number of positions of the string, taken code point by code
  point, that hold exactly this code point. So \<^verbatim>\<open>"A"\<close> and \<^verbatim>\<open>"a"\<close> are counted under
  two keys, and \<^verbatim>\<open>findWords("a", ["A"])\<close> is empty.
\<close>

theorem createFrequencyMap_exact_identity:
  "nullish (getProp (createFrequencyMap s) c) 0
     = card {i. i < length (stringIterator s) \<and> stringIterator s ! i = c}
   \<and> createFrequencyMap (ascii ''Aa'') = [(ascii ''A'', 1), (ascii ''a'', 1)]
   \<and> findWords (ascii ''a'') [ascii ''A''] = []"
proof (intro conjI)
  have "nullish (getProp (createFrequencyMap s) c) 0 = count_list (stringIterator s) c"
    by (simp add: getProp_createFrequencyMap nullish_def)
  also have "\<dots> = card {i. i < length (stringIterator s) \<and> c = stringIterator s ! i}"
    by (simp add: count_list_eq_length_filter length_filter_conv_card)
  also have "{i. i < length (stringIterator s) \<and> c = stringIterator s ! i}
               = {i. i < length (stringIterator s) \<and> stringIterator s ! i = c}"
    by auto
  finally show "nullish (getProp (createFrequencyMap s) c) 0
     = card {i. i < length (stringIterator s) \<and> stringIterator s ! i = c}" .
  show "createFrequencyMap (ascii ''Aa'') = [(ascii ''A'', 1), (ascii ''a'', 1)]"
    by code_simp
  show "findWords (ascii ''a'') [ascii ''A''] = []"
    by code_simp
qed

text \<open>
  C7. The scenario of the type test: from \<^verbatim>\<open>"example"\<close>, the words \<^verbatim>\<open>map\<close>,
  \<^verbatim>\<open>pam\<close>, \<^verbatim>\<open>lax\<close> and \<^verbatim>\<open>plea\<close> are found, in this order; \<^verbatim>\<open>exams\<close> is not.
\<close>

theorem findWords_example:
  "findWords (ascii ''example'')
     (map ascii [''map'', ''pam'', ''dog'', ''cat'', ''lax'', ''plea'', ''exams''])
   = map ascii [''map'', ''pam'', ''lax'', ''plea'']"
  by code_simp

text \<open>
  C9. The counts of the frequency object of a string add up to the number of code
  points of the string.
\<close>

theorem createFrequencyMap_total:
  "sum_list (map snd (createFrequencyMap s)) = length (stringIterator s)"
  by (simp add: createFrequencyMap_def sum_loop)

text \<open>
  C10. \<open>findWords\<close> distributes over the concatenation of dictionaries.
\<close>

theorem findWords_append:
  "findWords s (D1 @ D2) = findWords s D1 @ findWords s D2"
  unfolding findWords_def Let_def by (simp add: foldl_callback)

end
